theory Spec2Isabelle
  imports Main
begin

section \<open>Configuration (config.py)\<close>

definition AppConfig_root :: string where
  "AppConfig_root = ''C:/Altegra/Code/pa-estuary''"

definition S3Config_bucket :: string where
  "S3Config_bucket = ''aws-dwred-01.altegrahealth.com''"

definition S3Config_root :: string where
  "S3Config_root = ''pag_estuary''"

section \<open>Values, exceptions and the outside world\<close>

text \<open>
  The values a task's argument dictionary carries. The messages built in \<open>main.py\<close>
  carry an S3 key (a string) or a waiting time (the integer 2); argument values are
  taken to be strings or integers.
\<close>

datatype pyval = PInt int | PStr string

datatype exn =
    KeyError | TypeError | ValueError | IndexError | AssertionError
  | AttributeError | NotImplementedError | OverflowError | ClientError | OSError

text \<open>One entry of a listing, with the three fields of boto3's dictionary that are read.\<close>

record s3_object =
  Key :: string
  Size :: nat
  LastModified :: int

text \<open>
  Every request the program sends to the S3 client or to the local file system.
  Log records and sleeping are not requests.
\<close>

datatype call =
    ListObjects string string string nat
  | UploadFile string string string
  | DownloadFile string string string
  | CopyObject string string string
  | DeleteObject string string
  | MakeDirs string
  | CopyFile string string
  | Remove string
  | RmDir string

text \<open>
  What comes back: an exception, a plain return, or (for a listing) a response with
  \<open>Contents\<close> and \<open>IsTruncated\<close>. A plain return of a listing is a response without
  \<open>Contents\<close>.
\<close>

datatype reply = Raises exn | Returns | Contents "s3_object list" bool

text \<open>
  The outside world is any function from the requests made so far and the current
  request to a reply. The program's only view of it is \<open>perform\<close>, which also appends
  the request to the history.
\<close>

type_synonym env = "call list \<Rightarrow> call \<Rightarrow> reply"

definition perform :: "env \<Rightarrow> call \<Rightarrow> call list \<Rightarrow> reply \<times> call list" where
  "perform env c tr = (env tr c, tr @ [c])"

text \<open>A call whose response is not used: it raises or it returns.\<close>

definition exec :: "env \<Rightarrow> call \<Rightarrow> call list \<Rightarrow> exn option \<times> call list" where
  "exec env c tr =
     (case perform env c tr of
        (Raises e, tr') \<Rightarrow> (Some e, tr')
      | (_, tr') \<Rightarrow> (None, tr'))"

section \<open>The gateway (s3.py)\<close>

text \<open>
  \<open>list_files\<close>: the paging loop. It ends when a response has no \<open>Contents\<close> or is not
  truncated; a truncated response with an empty \<open>Contents\<close> raises on \<open>[-1]\<close>. Nothing
  bounds the number of pages, so the loop is a partial function: \<open>None\<close> is a listing that
  never ends.
\<close>

partial_function (option) list_files_loop ::
  "env \<Rightarrow> string \<Rightarrow> string \<Rightarrow> string \<Rightarrow> s3_object list \<Rightarrow> call list
     \<Rightarrow> ((exn + s3_object list) \<times> call list) option" where
  "list_files_loop env bucket prefix marker result tr =
     (case perform env (ListObjects bucket prefix marker 1000) tr of
        (Raises e, tr') \<Rightarrow> Some (Inl e, tr')
      | (Returns, tr') \<Rightarrow> Some (Inr result, tr')
      | (Contents objs truncated, tr') \<Rightarrow>
          if truncated then
            (if objs = [] then Some (Inl IndexError, tr')
             else list_files_loop env bucket prefix (Key (last objs)) (result @ objs) tr')
          else Some (Inr (result @ objs), tr'))"

definition S3Helper_list_files ::
  "env \<Rightarrow> string \<Rightarrow> string \<Rightarrow> call list \<Rightarrow> ((exn + s3_object list) \<times> call list) option" where
  "S3Helper_list_files env bucket prefix tr = list_files_loop env bucket prefix [] [] tr"

definition S3Helper_upload_file ::
  "env \<Rightarrow> string \<Rightarrow> string \<Rightarrow> string \<Rightarrow> call list \<Rightarrow> exn option \<times> call list" where
  "S3Helper_upload_file env local bucket remote tr = exec env (UploadFile local bucket remote) tr"

text \<open>\<open>download_file\<close> passes \<open>S3Config.bucket\<close> to the client, not its own argument.\<close>

definition S3Helper_download_file ::
  "env \<Rightarrow> string \<Rightarrow> string \<Rightarrow> string \<Rightarrow> call list \<Rightarrow> exn option \<times> call list" where
  "S3Helper_download_file env bucket remote local tr =
     exec env (DownloadFile S3Config_bucket remote local) tr"

definition S3Helper_copy_file ::
  "env \<Rightarrow> string \<Rightarrow> string \<Rightarrow> string \<Rightarrow> call list \<Rightarrow> exn option \<times> call list" where
  "S3Helper_copy_file env bucket source destination tr =
     exec env (CopyObject bucket (bucket @ ''/'' @ source) destination) tr"

definition S3Helper_delete_file ::
  "env \<Rightarrow> string \<Rightarrow> string \<Rightarrow> call list \<Rightarrow> exn option \<times> call list" where
  "S3Helper_delete_file env bucket key tr = exec env (DeleteObject bucket key) tr"

text \<open>\<open>move_file\<close>: copy, then delete the source; a failed copy skips the delete.\<close>

definition S3Helper_move_file ::
  "env \<Rightarrow> string \<Rightarrow> string \<Rightarrow> string \<Rightarrow> call list \<Rightarrow> exn option \<times> call list" where
  "S3Helper_move_file env bucket source destination tr =
     (case S3Helper_copy_file env bucket source destination tr of
        (Some e, tr') \<Rightarrow> (Some e, tr')
      | (None, tr') \<Rightarrow> S3Helper_delete_file env bucket source tr')"

section \<open>Messages and tasks (task.py)\<close>

record task_message =
  msg_id :: nat
  msg_type :: string
  args :: "string \<rightharpoonup> pyval"

datatype status = in_progress | success | failure

record status_message =
  status_value :: status
  origin :: task_message

text \<open>
  The attributes of an \<open>ImportTask\<close> object. Only \<open>file_path\<close> is set by the
  initializer; the others exist once \<open>_parse\<close> has assigned them, and reading one
  before that raises \<open>AttributeError\<close>.
\<close>

record import_task =
  file_path :: pyval
  client :: "string option"
  file_name :: "string option"
  file_type :: "string option"
  version :: "string option"
  download_folder :: "string option"
  download_path :: "string option"
  processed_folder :: "string option"
  processed_path :: "string option"
  upload_path :: "string option"
  accepted_path :: "string option"
  rejected_path :: "string option"

datatype variant = Task | TestTask pyval | KillSelfTask | ImportTask import_task

record task =
  task_message :: task_message
  status_message :: status_message
  variant :: variant

text \<open>
  The names in the module's \<open>globals()\<close> that are not task classes: the imports, the
  logger, the two message classes and the interpreter's own entries. Calling any of them
  with three arguments raises \<open>TypeError\<close>.
\<close>

definition other_globals :: "string list" where
  "other_globals =
     [''logging'', ''os'', ''shutil'', ''time'', ''AppConfig'', ''S3Config'', ''S3Helper'',
      ''log'', ''TaskMessage'', ''StatusMessage'', ''__name__'', ''__doc__'', ''__package__'',
      ''__loader__'', ''__spec__'', ''__file__'', ''__cached__'', ''__builtins__'']"

definition new_import_task :: "pyval \<Rightarrow> import_task" where
  "new_import_task p =
     \<lparr>file_path = p, client = None, file_name = None, file_type = None, version = None,
      download_folder = None, download_path = None, processed_folder = None,
      processed_path = None, upload_path = None, accepted_path = None,
      rejected_path = None\<rparr>"

definition new_task :: "task_message \<Rightarrow> variant \<Rightarrow> task" where
  "new_task m v =
     \<lparr>task_message = m,
      status_message = \<lparr>status_value = in_progress, origin = m\<rparr>,
      variant = v\<rparr>"

text \<open>
  \<open>TaskMessage.to_task\<close>: \<open>globals()[self.type](worker, self, s3)\<close>. The lookup raises
  \<open>KeyError\<close> for a name the module does not have; the initializers of \<open>TestTask\<close> and
  \<open>ImportTask\<close> raise \<open>KeyError\<close> when their argument is missing.
\<close>

definition to_task :: "task_message \<Rightarrow> exn + task" where
  "to_task m =
     (if msg_type m = ''TestTask'' then
        (case args m ''wait_time'' of
           None \<Rightarrow> Inl KeyError
         | Some w \<Rightarrow> Inr (new_task m (TestTask w)))
      else if msg_type m = ''KillSelfTask'' then Inr (new_task m KillSelfTask)
      else if msg_type m = ''ImportTask'' then
        (case args m ''file_path'' of
           None \<Rightarrow> Inl KeyError
         | Some p \<Rightarrow> Inr (new_task m (ImportTask (new_import_task p))))
      else if msg_type m = ''Task'' then Inr (new_task m Task)
      else if msg_type m \<in> set other_globals then Inl TypeError
      else Inl KeyError)"

subsection \<open>TestTask\<close>

text \<open>
  \<open>time.sleep\<close> turns its argument into a signed 64-bit count of nanoseconds and
  raises \<open>OverflowError\<close> when it does not fit. For an argument \<open>n / 3\<close> it fits
  exactly when \<open>n\<close> is at most \<open>sleep_limit\<close> in absolute value, that is when
  \<open>n * 10^9 / 3\<close> is below \<open>2^63\<close>.
\<close>

definition sleep_limit :: int where
  "sleep_limit = 27670116110"

text \<open>
  \<open>do\<close> sleeps three times for \<open>wait_time / 3\<close>. The division raises \<open>TypeError\<close> on
  a string and \<open>OverflowError\<close> on an integer too large for a float; \<open>time.sleep\<close>
  raises \<open>OverflowError\<close> beyond its limit and \<open>ValueError\<close> on a negative length.
  The first \<open>sleep\<close> decides, the other two have the same argument.
\<close>

definition TestTask_do :: "pyval \<Rightarrow> exn option" where
  "TestTask_do wait_time =
     (case wait_time of
        PStr _ \<Rightarrow> Some TypeError
      | PInt n \<Rightarrow>
          if n < - sleep_limit \<or> sleep_limit < n then Some OverflowError
          else if n < 0 then Some ValueError
          else None)"

subsection \<open>ImportTask\<close>

text \<open>Python's \<open>str.split(sep)\<close> for a one-character separator.\<close>

fun split :: "char \<Rightarrow> string \<Rightarrow> string list" where
  "split c [] = [[]]"
| "split c (x # xs) =
     (if x = c then [] # split c xs
      else (case split c xs of
              [] \<Rightarrow> [[x]]
            | y # ys \<Rightarrow> (x # y) # ys))"

definition allowed_file_types :: "string list" where
  "allowed_file_types = [''test1'', ''test2'', ''test3'', ''mmr'', ''mor'']"

text \<open>
  \<open>_parse\<close>. Each \<open>assert\<close> is a branch that raises; the attributes assigned before it
  stay assigned. Slicing a non-string raises \<open>TypeError\<close>.
\<close>

definition ImportTask_parse :: "import_task \<Rightarrow> exn option \<times> import_task" where
  "ImportTask_parse t =
     (case file_path t of
        PInt _ \<Rightarrow> (Some TypeError, t)
      | PStr p \<Rightarrow>
          let s = drop (length S3Config_root + 1) p;
              elements = split CHR ''/'' s
          in if length elements \<noteq> 3 then (Some AssertionError, t)
             else
               let c = elements ! 1;
                   f = elements ! 2;
                   t1 = t\<lparr>client := Some c, file_name := Some f\<rparr>;
                   elements' = split CHR ''_'' f
               in if length elements' \<noteq> 2 then (Some AssertionError, t1)
                  else
                    let t2 = t1\<lparr>file_type := Some (elements' ! 0)\<rparr>
                    in if elements' ! 0 \<notin> set allowed_file_types
                       then (Some AssertionError, t2)
                       else
                         (None,
                          t2\<lparr>version := Some (elements' ! 1),
                             download_folder := Some (AppConfig_root @ ''/data/download/'' @ c),
                             download_path :=
                               Some (AppConfig_root @ ''/data/download/'' @ c @ ''/'' @ f),
                             processed_folder := Some (AppConfig_root @ ''/data/processed/'' @ c),
                             processed_path :=
                               Some (AppConfig_root @ ''/data/processed/'' @ c @ ''/'' @ f),
                             upload_path := Some (S3Config_root @ ''/processed/'' @ c @ ''/'' @ f),
                             accepted_path := Some (S3Config_root @ ''/accepted/'' @ c @ ''/'' @ f),
                             rejected_path :=
                               Some (S3Config_root @ ''/rejected/'' @ c @ ''/'' @ f)\<rparr>))"

text \<open>Sequencing of two steps on the request history: the second runs if the first returned.\<close>

definition and_then ::
  "exn option \<times> call list \<Rightarrow> (call list \<Rightarrow> exn option \<times> call list) \<Rightarrow> exn option \<times> call list" where
  "and_then r f = (case r of (Some e, tr) \<Rightarrow> (Some e, tr) | (None, tr) \<Rightarrow> f tr)"

text \<open>
  The object key as the client receives it. A key that is not a string is refused by the
  client before any request is sent; after a successful \<open>_parse\<close> the key is a string.
\<close>

definition with_key ::
  "pyval \<Rightarrow> (string \<Rightarrow> call list \<Rightarrow> exn option \<times> call list) \<Rightarrow> call list
     \<Rightarrow> exn option \<times> call list" where
  "with_key p f tr = (case p of PInt _ \<Rightarrow> (Some TypeError, tr) | PStr k \<Rightarrow> f k tr)"

text \<open>Reading an attribute that \<open>_parse\<close> assigns.\<close>

definition with_attr ::
  "string option \<Rightarrow> (string \<Rightarrow> call list \<Rightarrow> exn option \<times> call list) \<Rightarrow> call list
     \<Rightarrow> exn option \<times> call list" where
  "with_attr a f tr = (case a of None \<Rightarrow> (Some AttributeError, tr) | Some v \<Rightarrow> f v tr)"

definition ImportTask_download :: "env \<Rightarrow> import_task \<Rightarrow> call list \<Rightarrow> exn option \<times> call list" where
  "ImportTask_download env t tr =
     and_then (with_attr (download_folder t) (\<lambda>d. exec env (MakeDirs d)) tr)
       (with_attr (download_path t)
          (\<lambda>l. with_key (file_path t) (\<lambda>k. S3Helper_download_file env S3Config_bucket k l)))"

definition ImportTask_preprocess :: "env \<Rightarrow> import_task \<Rightarrow> call list \<Rightarrow> exn option \<times> call list" where
  "ImportTask_preprocess env t tr =
     and_then (with_attr (processed_folder t) (\<lambda>d. exec env (MakeDirs d)) tr)
       (with_attr (download_path t)
          (\<lambda>src. with_attr (processed_path t) (\<lambda>dst. exec env (CopyFile src dst))))"

definition ImportTask_upload :: "env \<Rightarrow> import_task \<Rightarrow> call list \<Rightarrow> exn option \<times> call list" where
  "ImportTask_upload env t tr =
     with_attr (processed_path t)
       (\<lambda>l. with_attr (upload_path t) (\<lambda>r. S3Helper_upload_file env l S3Config_bucket r)) tr"

text \<open>\<open>_import\<close> and \<open>_postprocess\<close> are \<open>pass\<close>.\<close>

definition ImportTask_import :: "env \<Rightarrow> import_task \<Rightarrow> call list \<Rightarrow> exn option \<times> call list" where
  "ImportTask_import env t tr = (None, tr)"

definition ImportTask_postprocess :: "env \<Rightarrow> import_task \<Rightarrow> call list \<Rightarrow> exn option \<times> call list" where
  "ImportTask_postprocess env t tr = (None, tr)"

text \<open>\<open>do\<close>: the six stages in order; the first one that raises ends it.\<close>

definition ImportTask_do ::
  "env \<Rightarrow> import_task \<Rightarrow> call list \<Rightarrow> exn option \<times> import_task \<times> call list" where
  "ImportTask_do env t tr =
     (case ImportTask_parse t of
        (Some e, t') \<Rightarrow> (Some e, t', tr)
      | (None, t') \<Rightarrow>
          (case and_then (and_then (and_then (and_then (ImportTask_download env t' tr)
                   (ImportTask_preprocess env t'))
                   (ImportTask_upload env t'))
                   (ImportTask_import env t'))
                   (ImportTask_postprocess env t') of
             (r, tr') \<Rightarrow> (r, t', tr')))"

text \<open>
  One of the two \<open>try: os.remove(path); os.rmdir(folder) except: pass\<close> blocks of
  \<open>cleanup\<close>: whatever is raised inside, also by reading the attributes, is dropped.
\<close>

definition remove_local :: "env \<Rightarrow> string option \<Rightarrow> string option \<Rightarrow> call list \<Rightarrow> call list" where
  "remove_local env path folder tr =
     snd (and_then (with_attr path (\<lambda>p. exec env (Remove p)) tr)
            (with_attr folder (\<lambda>d. exec env (RmDir d))))"

text \<open>
  \<open>cleanup\<close>: the move of the original object (its destination attribute is read while
  the arguments are evaluated), the two guarded local removals, then the unguarded
  deletion of the restaged object.
\<close>

definition ImportTask_cleanup ::
  "env \<Rightarrow> status \<Rightarrow> import_task \<Rightarrow> call list \<Rightarrow> exn option \<times> call list" where
  "ImportTask_cleanup env st t tr =
     and_then
       (if st = success
        then with_attr (accepted_path t)
               (\<lambda>dst. with_key (file_path t) (\<lambda>k. S3Helper_move_file env S3Config_bucket k dst)) tr
        else with_attr (rejected_path t)
               (\<lambda>dst. with_key (file_path t) (\<lambda>k. S3Helper_move_file env S3Config_bucket k dst)) tr)
       (\<lambda>tr1.
          let tr2 = remove_local env (download_path t) (download_folder t) tr1;
              tr3 = remove_local env (processed_path t) (processed_folder t) tr2
          in with_attr (upload_path t) (\<lambda>u. S3Helper_delete_file env S3Config_bucket u) tr3)"

section \<open>The processes and their channels\<close>

text \<open>
  The state of the whole system: the coordinator's attributes (\<open>stop\<close>,
  \<open>max_s3_time\<close>, the counter \<open>TaskMessage.next_id\<close> of its process), the \<open>stop\<close>
  attribute of every worker process (by worker number), the two queues, and the history
  of requests.
\<close>

record system =
  stop :: bool
  max_s3_time :: int
  next_id :: nat
  worker_stop :: "nat \<Rightarrow> bool"
  task_queue :: "task_message list"
  status_queue :: "status_message list"
  trace :: "call list"

subsection \<open>Running a task\<close>

text \<open>\<open>KillSelfTask.do\<close> sets the \<open>stop\<close> attribute of the worker it was built with.\<close>

definition KillSelfTask_do :: "nat \<Rightarrow> system \<Rightarrow> system" where
  "KillSelfTask_do w s = s\<lparr>worker_stop := (worker_stop s)(w := True)\<rparr>"

text \<open>\<open>TestTask.cleanup\<close> and \<open>KillSelfTask.cleanup\<close> are \<open>pass\<close>.\<close>

definition TestTask_cleanup :: "system \<Rightarrow> exn option \<times> system" where
  "TestTask_cleanup s = (None, s)"

definition KillSelfTask_cleanup :: "system \<Rightarrow> exn option \<times> system" where
  "KillSelfTask_cleanup s = (None, s)"

text \<open>Method dispatch on the task's class; the base class raises in both methods.\<close>

definition task_do :: "env \<Rightarrow> nat \<Rightarrow> task \<Rightarrow> system \<Rightarrow> exn option \<times> task \<times> system" where
  "task_do env w t s =
     (case variant t of
        Task \<Rightarrow> (Some NotImplementedError, t, s)
      | TestTask wait_time \<Rightarrow> (TestTask_do wait_time, t, s)
      | KillSelfTask \<Rightarrow> (None, t, KillSelfTask_do w s)
      | ImportTask it \<Rightarrow>
          (case ImportTask_do env it (trace s) of
             (r, it', tr') \<Rightarrow> (r, t\<lparr>variant := ImportTask it'\<rparr>, s\<lparr>trace := tr'\<rparr>)))"

definition task_cleanup :: "env \<Rightarrow> task \<Rightarrow> system \<Rightarrow> exn option \<times> system" where
  "task_cleanup env t s =
     (case variant t of
        Task \<Rightarrow> (Some NotImplementedError, s)
      | TestTask _ \<Rightarrow> TestTask_cleanup s
      | KillSelfTask \<Rightarrow> KillSelfTask_cleanup s
      | ImportTask it \<Rightarrow>
          (case ImportTask_cleanup env (status_value (status_message t)) it (trace s) of
             (r, tr') \<Rightarrow> (r, s\<lparr>trace := tr'\<rparr>)))"

subsection \<open>Worker (worker.py)\<close>

definition set_status :: "status \<Rightarrow> task \<Rightarrow> task" where
  "set_status v t = t\<lparr>status_message := (status_message t)\<lparr>status_value := v\<rparr>\<rparr>"

definition put_status :: "task \<Rightarrow> system \<Rightarrow> system" where
  "put_status t s = s\<lparr>status_queue := status_queue s @ [status_message t]\<rparr>"

text \<open>
  The body of the worker's loop for a claimed message \<open>m\<close>. \<open>to_task\<close> is called before
  the \<open>try\<close>, so what it raises leaves the loop. Inside the \<open>try\<close>, \<open>do\<close> decides between
  the two status branches; \<open>cleanup\<close> is the \<open>finally\<close> block, and what it raises leaves
  the loop as well.
\<close>

definition Worker_iteration :: "env \<Rightarrow> nat \<Rightarrow> task_message \<Rightarrow> system \<Rightarrow> exn option \<times> system" where
  "Worker_iteration env w m s =
     (case to_task m of
        Inl e \<Rightarrow> (Some e, s)
      | Inr t \<Rightarrow>
          (case task_do env w t s of
             (None, t1, s1) \<Rightarrow>
               let t2 = set_status success t1 in task_cleanup env t2 (put_status t2 s1)
           | (Some e, t1, s1) \<Rightarrow>
               let t2 = set_status failure t1 in task_cleanup env t2 (put_status t2 s1)))"

text \<open>
  \<open>Worker.run\<close> for worker \<open>w\<close>, on the messages now in the task queue. The loop ends
  when the worker's \<open>stop\<close> is set, or with the exception that left its body; on an
  empty queue the worker waits in \<open>get()\<close>.
\<close>

datatype outcome = Stopped system | Waiting system | Crashed exn system

function Worker_run :: "env \<Rightarrow> nat \<Rightarrow> system \<Rightarrow> outcome" where
  "Worker_run env w s =
     (if worker_stop s w then Stopped s
      else (case task_queue s of
              [] \<Rightarrow> Waiting s
            | m # q \<Rightarrow>
                (case Worker_iteration env w m (s\<lparr>task_queue := q\<rparr>) of
                   (Some e, s') \<Rightarrow> Crashed e s'
                 | (None, s') \<Rightarrow> Worker_run env w s')))"
  by pat_completeness auto
termination
proof (relation "measure (\<lambda>(env, w, s). length (task_queue s))")
  show "wf (measure (\<lambda>(env, w, s). length (task_queue s)))" by simp
next
  fix env :: env and w :: nat and s :: system and m q x s'
  assume q: "task_queue s = m # q"
    and it: "(x, s') = Worker_iteration env w m (s\<lparr>task_queue := q\<rparr>)"
  have do_q: "task_queue (snd (snd (task_do env w t u))) = task_queue u" for t u
    by (simp add: task_do_def KillSelfTask_do_def split: variant.split prod.split)
  have cl_q: "task_queue (snd (task_cleanup env t u)) = task_queue u" for t u
    by (simp add: task_cleanup_def TestTask_cleanup_def KillSelfTask_cleanup_def
        split: variant.split prod.split)
  have "task_queue (snd (Worker_iteration env w m u)) = task_queue u" for u
  proof (cases "to_task m")
    case (Inl e)
    then show ?thesis by (simp add: Worker_iteration_def)
  next
    case (Inr t)
    obtain r t1 u1 where d: "task_do env w t u = (r, t1, u1)" by (cases "task_do env w t u")
    with do_q [of t u] have "task_queue u1 = task_queue u" by simp
    with Inr d show ?thesis
      by (cases r) (simp_all add: Worker_iteration_def Let_def cl_q put_status_def)
  qed
  note wq = this
  from it [symmetric] have "s' = snd (Worker_iteration env w m (s\<lparr>task_queue := q\<rparr>))"
    by simp
  then have "task_queue s' = q"
    by (simp add: wq)
  with q show "((env, w, s'), (env, w, s)) \<in> measure (\<lambda>(env, w, s). length (task_queue s))"
    by simp
qed

subsection \<open>Main (main.py)\<close>

text \<open>\<open>TaskMessage(type, args)\<close>: the class counter is incremented and becomes the id.\<close>

definition TaskMessage_init :: "string \<Rightarrow> (string \<rightharpoonup> pyval) \<Rightarrow> system \<Rightarrow> task_message \<times> system" where
  "TaskMessage_init ty as s =
     (\<lparr>msg_id = next_id s + 1, msg_type = ty, args = as\<rparr>, s\<lparr>next_id := next_id s + 1\<rparr>)"

text \<open>
  The \<open>for\<close> loop of \<open>check_s3\<close>. \<open>new_s3_time\<close> is the local candidate; the comparison
  that skips an object reads \<open>self.max_s3_time\<close>, which the loop does not assign.
\<close>

fun check_s3_loop :: "s3_object list \<Rightarrow> int \<Rightarrow> system \<Rightarrow> int \<times> system" where
  "check_s3_loop [] new_s3_time s = (new_s3_time, s)"
| "check_s3_loop (result # results) new_s3_time s =
     (if Size result = 0 then check_s3_loop results new_s3_time s
      else if LastModified result \<le> max_s3_time s then check_s3_loop results new_s3_time s
      else
        let new_s3_time' =
              (if LastModified result > new_s3_time then LastModified result else new_s3_time);
            (message, s1) = TaskMessage_init ''ImportTask'' [''file_path'' \<mapsto> PStr (Key result)] s;
            s2 = s1\<lparr>task_queue := task_queue s1 @ [message]\<rparr>
        in check_s3_loop results new_s3_time' s2)"

text \<open>
  \<open>check_s3\<close>: \<open>None\<close> when the listing never ends; an exception of the listing leaves
  before anything is assigned.
\<close>

definition Main_check_s3 :: "env \<Rightarrow> system \<Rightarrow> (exn option \<times> system) option" where
  "Main_check_s3 env s =
     (case S3Helper_list_files env S3Config_bucket (S3Config_root @ ''/pending/'') (trace s) of
        None \<Rightarrow> None
      | Some (Inl e, tr) \<Rightarrow> Some (Some e, s\<lparr>trace := tr\<rparr>)
      | Some (Inr results, tr) \<Rightarrow>
          (case check_s3_loop results (max_s3_time s) (s\<lparr>trace := tr\<rparr>) of
             (new_s3_time, s') \<Rightarrow> Some (None, s'\<lparr>max_s3_time := new_s3_time\<rparr>)))"

text \<open>\<open>check_status\<close> takes every message off the status queue and logs it.\<close>

definition Main_check_status :: "env \<Rightarrow> system \<Rightarrow> (exn option \<times> system) option" where
  "Main_check_status env s = Some (None, s\<lparr>status_queue := []\<rparr>)"

definition looped_functions :: "(env \<Rightarrow> system \<Rightarrow> (exn option \<times> system) option) list" where
  "looped_functions = [Main_check_s3, Main_check_status]"

text \<open>
  The inner loop of \<open>Main.run\<close>: each function is called inside \<open>try ... except: log\<close>,
  so an exception is dropped and the next function is called.
\<close>

fun call_all ::
  "(env \<Rightarrow> system \<Rightarrow> (exn option \<times> system) option) list \<Rightarrow> env \<Rightarrow> system \<Rightarrow> system option" where
  "call_all [] env s = Some s"
| "call_all (f # fs) env s =
     (case f env s of
        None \<Rightarrow> None
      | Some (_, s') \<Rightarrow> call_all fs env s')"

text \<open>
  The outer loop of \<open>Main.run\<close> has no bound of its own: it runs until \<open>stop\<close> is set.
  \<open>Main_run n\<close> is the state after \<open>n\<close> passes of the loop, or the state in which
  \<open>stop\<close> ended it earlier.
\<close>

fun Main_run :: "nat \<Rightarrow> env \<Rightarrow> system \<Rightarrow> system option" where
  "Main_run 0 env s = Some s"
| "Main_run (Suc n) env s =
     (if stop s then Some s
      else (case call_all looped_functions env s of
              None \<Rightarrow> None
            | Some s' \<Rightarrow> Main_run n env s'))"

section \<open>Specification vocabulary and concrete inputs\<close>

text \<open>
  The listed objects that a poll cycle turns into a task, given the high-water mark
  before the cycle: non-empty and modified strictly after the mark.
\<close>

definition produced :: "int \<Rightarrow> s3_object list \<Rightarrow> s3_object list" where
  "produced mark results = filter (\<lambda>r. 0 < Size r \<and> mark < LastModified r) results"

text \<open>The message of type import for a listed object, with a given id.\<close>

definition import_message :: "nat \<Rightarrow> s3_object \<Rightarrow> task_message" where
  "import_message i r =
     \<lparr>msg_id = i, msg_type = ''ImportTask'', args = [''file_path'' \<mapsto> PStr (Key r)]\<rparr>"

text \<open>Worlds: one where every request returns, one where every request raises.\<close>

definition quiet_env :: env where
  "quiet_env tr c = Returns"

definition failing_env :: env where
  "failing_env tr c = Raises ClientError"

text \<open>A world whose first request raises and which then lists one untruncated page.\<close>

definition fail_once_env :: "s3_object list \<Rightarrow> env" where
  "fail_once_env objs tr c =
     (if tr = [] then Raises ClientError
      else (case c of ListObjects b p k n \<Rightarrow> Contents objs False | _ \<Rightarrow> Returns))"

text \<open>A world whose listing is one untruncated page; every other request returns.\<close>

definition one_page_env :: "s3_object list \<Rightarrow> env" where
  "one_page_env objs tr c =
     (case c of ListObjects b p k n \<Rightarrow> Contents objs False | _ \<Rightarrow> Returns)"

definition idle_system :: system where
  "idle_system =
     \<lparr>stop = False, max_s3_time = 0, next_id = 0, worker_stop = (\<lambda>w. False),
      task_queue = [], status_queue = [], trace = []\<rparr>"

definition message :: "string \<Rightarrow> (string \<rightharpoonup> pyval) \<Rightarrow> task_message" where
  "message ty as = \<lparr>msg_id = 1, msg_type = ty, args = as\<rparr>"

definition no_args :: "string \<rightharpoonup> pyval" where
  "no_args = Map.empty"

definition object_at :: "string \<Rightarrow> nat \<Rightarrow> int \<Rightarrow> s3_object" where
  "object_at k n t = \<lparr>Key = k, Size = n, LastModified = t\<rparr>"

definition pending_objects :: "s3_object list" where
  "pending_objects =
     [object_at ''pag_estuary/pending/clientA/'' 0 9,
      object_at ''pag_estuary/pending/clientA/test1_20170101.csv'' 120 5,
      object_at ''pag_estuary/pending/clientA/test2_20170101.csv'' 80 7,
      object_at ''pag_estuary/pending/clientB/mmr_20170101.csv'' 64 0]"

section \<open>Basic facts\<close>

lemma exec_trace: "snd (exec env c tr) = tr @ [c]"
  by (simp add: exec_def perform_def split: reply.split)

lemma list_files_one_page:
  "S3Helper_list_files (one_page_env objs) b p tr =
     Some (Inr objs, tr @ [ListObjects b p [] 1000])"
  unfolding S3Helper_list_files_def
  by (subst list_files_loop.simps) (simp add: perform_def one_page_env_def)

lemma list_files_failing:
  "S3Helper_list_files failing_env b p tr =
     Some (Inl ClientError, tr @ [ListObjects b p [] 1000])"
  unfolding S3Helper_list_files_def
  by (subst list_files_loop.simps) (simp add: perform_def failing_env_def)

lemma list_files_fail_once_first:
  "S3Helper_list_files (fail_once_env objs) b p [] =
     Some (Inl ClientError, [ListObjects b p [] 1000])"
  unfolding S3Helper_list_files_def
  by (subst list_files_loop.simps) (simp add: perform_def fail_once_env_def)

lemma list_files_fail_once_later:
  assumes "tr \<noteq> []"
  shows "S3Helper_list_files (fail_once_env objs) b p tr =
     Some (Inr objs, tr @ [ListObjects b p [] 1000])"
  unfolding S3Helper_list_files_def
  using assms by (subst list_files_loop.simps) (simp add: perform_def fail_once_env_def)

lemma Worker_run_crash:
  assumes "\<not> worker_stop s w" and "task_queue s = m # q"
    and "Worker_iteration env w m (s\<lparr>task_queue := q\<rparr>) = (Some e, s')"
  shows "Worker_run env w s = Crashed e s'"
  using assms by (subst Worker_run.simps) simp

section \<open>The gateway's download ignores its bucket argument\<close>

text \<open>
  Claim C9. \<open>download_file\<close> does not use the bucket it is given: two calls that differ
  only in the bucket have the same result and the same history, and the one request made
  names the configured bucket.
\<close>

theorem download_file_ignores_bucket:
  "S3Helper_download_file env b1 remote local tr = S3Helper_download_file env b2 remote local tr
   \<and> snd (S3Helper_download_file env b1 remote local tr)
       = tr @ [DownloadFile S3Config_bucket remote local]"
  by (simp add: S3Helper_download_file_def exec_trace)

section \<open>Tasks without disposition\<close>

text \<open>
  Claim C10. For a \<open>TestTask\<close> or a \<open>KillSelfTask\<close>, \<open>cleanup\<close> returns without
  changing anything, \<open>do\<close> sends no request, and so the whole pass of the worker's loop
  over such a message leaves the history of requests as it was: no copy, delete or
  local removal.
\<close>

theorem simple_tasks_issue_nothing:
  assumes "variant t = TestTask wt \<or> variant t = KillSelfTask"
  shows "task_cleanup env t s = (None, s)
         \<and> trace (snd (snd (task_do env w t s))) = trace s
         \<and> (to_task m = Inr t \<longrightarrow> trace (snd (Worker_iteration env w m s)) = trace s)"
proof -
  have c: "task_cleanup env t' u = (None, u)"
    if "variant t' = TestTask wt \<or> variant t' = KillSelfTask" for t' u
    using that
    by (auto simp: task_cleanup_def TestTask_cleanup_def KillSelfTask_cleanup_def)
  have d: "trace (snd (snd (task_do env w t s))) = trace s"
    using assms by (auto simp: task_do_def KillSelfTask_do_def)
  have v: "variant (fst (snd (task_do env w t s))) = variant t"
    using assms by (auto simp: task_do_def)
  have "trace (snd (Worker_iteration env w m s)) = trace s" if tt: "to_task m = Inr t"
  proof -
    obtain r t1 s1 where td: "task_do env w t s = (r, t1, s1)"
      by (cases "task_do env w t s")
    from v td assms have v1: "variant (set_status x t1) = TestTask wt
        \<or> variant (set_status x t1) = KillSelfTask" for x
      by (auto simp: set_status_def)
    from d td have "trace s1 = trace s" by simp
    then show ?thesis
      by (cases r) (simp_all add: Worker_iteration_def tt td Let_def c [OF v1] put_status_def)
  qed
  with c [OF assms] d show ?thesis by blast
qed

theorem simple_tasks_issue_nothing_witness:
  "to_task (message ''TestTask'' [''wait_time'' \<mapsto> PInt 2])
     = Inr (new_task (message ''TestTask'' [''wait_time'' \<mapsto> PInt 2]) (TestTask (PInt 2)))
   \<and> task_cleanup failing_env
        (new_task (message ''TestTask'' [''wait_time'' \<mapsto> PInt 2]) (TestTask (PInt 2)))
        idle_system = (None, idle_system)
   \<and> trace (snd (Worker_iteration failing_env 0
               (message ''TestTask'' [''wait_time'' \<mapsto> PInt 2]) idle_system)) = []"
proof -
  let ?m = "message ''TestTask'' [''wait_time'' \<mapsto> PInt 2]"
  let ?t = "new_task ?m (TestTask (PInt 2))"
  have h: "variant ?t = TestTask (PInt 2) \<or> variant ?t = KillSelfTask"
    by (simp add: new_task_def)
  have t: "to_task ?m = Inr ?t"
    by (simp add: to_task_def message_def)
  have e: "trace idle_system = []"
    by (simp add: idle_system_def)
  from simple_tasks_issue_nothing [OF h, of failing_env idle_system 0 ?m] t e
  show ?thesis by simp
qed

section \<open>The self-terminate task\<close>

text \<open>
  Claim C8. A worker \<open>w\<close> that claims a \<open>KillSelfTask\<close> message ends its loop right
  after that task, leaving the rest of the task queue unclaimed. Executing the task sets
  the \<open>stop\<close> of \<open>w\<close> and publishes a success status; the \<open>stop\<close> of every other
  worker, the coordinator's \<open>stop\<close> and the task queue are as before.
\<close>

theorem kill_self_stops_only_its_worker:
  assumes "msg_type m = ''KillSelfTask''" and "\<not> worker_stop s w" and "task_queue s = m # q"
  shows "Worker_run env w s =
           Stopped (s\<lparr>task_queue := q,
                      worker_stop := (worker_stop s)(w := True),
                      status_queue := status_queue s @ [\<lparr>status_value = success, origin = m\<rparr>]\<rparr>)
         \<and> worker_stop (snd (Worker_iteration env w m (s\<lparr>task_queue := q\<rparr>))) w
         \<and> (\<forall>v. v \<noteq> w \<longrightarrow>
               worker_stop (snd (Worker_iteration env w m (s\<lparr>task_queue := q\<rparr>))) v
                 = worker_stop s v)
         \<and> stop (snd (Worker_iteration env w m (s\<lparr>task_queue := q\<rparr>))) = stop s
         \<and> task_queue (snd (Worker_iteration env w m (s\<lparr>task_queue := q\<rparr>))) = q"
proof -
  have it: "Worker_iteration env w m u =
      (None, u\<lparr>worker_stop := (worker_stop u)(w := True),
               status_queue := status_queue u @ [\<lparr>status_value = success, origin = m\<rparr>]\<rparr>)" for u
    using assms(1)
    by (simp add: Worker_iteration_def to_task_def task_do_def task_cleanup_def new_task_def
        set_status_def put_status_def KillSelfTask_cleanup_def KillSelfTask_do_def Let_def)
  have "Worker_run env w s = Worker_run env w (s\<lparr>task_queue := q,
                      worker_stop := (worker_stop s)(w := True),
                      status_queue := status_queue s @ [\<lparr>status_value = success, origin = m\<rparr>]\<rparr>)"
    using assms(2,3) by (subst Worker_run.simps) (simp add: it)
  also have "\<dots> = Stopped (s\<lparr>task_queue := q,
                      worker_stop := (worker_stop s)(w := True),
                      status_queue := status_queue s @ [\<lparr>status_value = success, origin = m\<rparr>]\<rparr>)"
    by (subst Worker_run.simps) simp
  finally show ?thesis by (simp add: it)
qed

theorem kill_self_stops_only_its_worker_witness:
  "Worker_run quiet_env 0
     (idle_system\<lparr>task_queue :=
        [message ''KillSelfTask'' no_args, message ''TestTask'' [''wait_time'' \<mapsto> PInt 2]]\<rparr>) =
     Stopped (idle_system\<lparr>task_queue := [message ''TestTask'' [''wait_time'' \<mapsto> PInt 2]],
                worker_stop := (worker_stop idle_system)(0 := True),
                status_queue :=
                  [\<lparr>status_value = success, origin = message ''KillSelfTask'' no_args\<rparr>]\<rparr>)
   \<and> worker_stop (snd (Worker_iteration quiet_env 0 (message ''KillSelfTask'' no_args)
        (idle_system\<lparr>task_queue := [message ''TestTask'' [''wait_time'' \<mapsto> PInt 2]]\<rparr>))) 1
       = False"
proof -
  let ?k = "message ''KillSelfTask'' no_args"
  let ?q = "[message ''TestTask'' [''wait_time'' \<mapsto> PInt 2]]"
  let ?s = "idle_system\<lparr>task_queue := ?k # ?q\<rparr>"
  have a: "msg_type ?k = ''KillSelfTask''" by (simp add: message_def)
  have b: "\<not> worker_stop ?s 0" by (simp add: idle_system_def)
  have c: "task_queue ?s = ?k # ?q" by simp
  have d: "worker_stop ?s 1 = False" and e: "status_queue idle_system = []"
    by (simp_all add: idle_system_def)
  note k = kill_self_stops_only_its_worker [OF a b c, of quiet_env]
  from k have "Worker_run quiet_env 0 ?s =
     Stopped (idle_system\<lparr>task_queue := ?q,
                worker_stop := (worker_stop idle_system)(0 := True),
                status_queue := [\<lparr>status_value = success, origin = ?k\<rparr>]\<rparr>)"
    by (simp add: e)
  moreover from k have "\<forall>v. v \<noteq> 0 \<longrightarrow>
      worker_stop (snd (Worker_iteration quiet_env 0 ?k (?s\<lparr>task_queue := ?q\<rparr>))) v
        = worker_stop ?s v"
    by blast
  then have "worker_stop (snd (Worker_iteration quiet_env 0 ?k (?s\<lparr>task_queue := ?q\<rparr>))) 1
        = worker_stop ?s 1"
    by simp
  ultimately show ?thesis using d by simp
qed

section \<open>The poll cycle\<close>

lemma check_s3_loop_result:
  "check_s3_loop results new s =
     (fold max (map LastModified (produced (max_s3_time s) results)) new,
      s\<lparr>next_id := next_id s + length (produced (max_s3_time s) results),
        task_queue := task_queue s @
          map (\<lambda>(i, r). import_message i r)
            (enumerate (next_id s + 1) (produced (max_s3_time s) results))\<rparr>)"
proof (induction results arbitrary: new s)
  case Nil
  then show ?case by (simp add: produced_def)
next
  case (Cons r results)
  show ?case
  proof (cases "0 < Size r \<and> max_s3_time s < LastModified r")
    case False
    then show ?thesis using Cons.IH [of new s] by (auto simp: produced_def)
  next
    case True
    let ?s2 = "s\<lparr>next_id := next_id s + 1,
                  task_queue := task_queue s @ [import_message (next_id s + 1) r]\<rparr>"
    have step: "check_s3_loop (r # results) new s =
                check_s3_loop results (max (LastModified r) new) ?s2"
      using True by (simp add: TaskMessage_init_def import_message_def max_def)
    have p: "produced (max_s3_time s) (r # results) = r # produced (max_s3_time s) results"
      using True by (simp add: produced_def)
    show ?thesis
      unfolding step p Cons.IH [of "max (LastModified r) new" ?s2]
      by simp
  qed
qed

lemma fold_max_produced:
  "fold max (map LastModified (produced mark results)) mark =
     (if produced mark results = [] then mark
      else Max (LastModified ` set (produced mark results)))"
proof (cases "produced mark results")
  case Nil
  then show ?thesis by simp
next
  case (Cons r rs)
  have "fold max (map LastModified (produced mark results)) mark
        = Max (set (mark # map LastModified (produced mark results)))"
    by (simp only: Max.set_eq_fold)
  also have "\<dots> = max mark (Max (LastModified ` set (produced mark results)))"
    using Cons by simp
  also have "\<dots> = Max (LastModified ` set (produced mark results))"
  proof -
    have "r \<in> set (produced mark results)" using Cons by simp
    then have "mark < LastModified r" by (simp add: produced_def)
    moreover have "LastModified r \<le> Max (LastModified ` set (produced mark results))"
      using Cons by simp
    ultimately show ?thesis by simp
  qed
  finally show ?thesis using Cons by simp
qed

lemma fold_max_ge: "(a::int) \<le> fold max xs a"
proof (induction xs arbitrary: a)
  case Nil
  show ?case by simp
next
  case (Cons x xs)
  have "a \<le> max x a" by simp
  also have "\<dots> \<le> fold max xs (max x a)" by (rule Cons.IH)
  finally show ?case by simp
qed

lemma Main_check_s3_listed:
  assumes "S3Helper_list_files env S3Config_bucket (S3Config_root @ ''/pending/'') (trace s)
             = Some (Inr results, tr)"
  shows "Main_check_s3 env s =
     Some (None,
       s\<lparr>trace := tr,
         next_id := next_id s + length (produced (max_s3_time s) results),
         task_queue := task_queue s @
           map (\<lambda>(i, r). import_message i r)
             (enumerate (next_id s + 1) (produced (max_s3_time s) results)),
         max_s3_time :=
           fold max (map LastModified (produced (max_s3_time s) results)) (max_s3_time s)\<rparr>)"
  using assms by (simp add: Main_check_s3_def check_s3_loop_result)

lemma Main_check_s3_raised:
  assumes "S3Helper_list_files env S3Config_bucket (S3Config_root @ ''/pending/'') (trace s)
             = Some (Inl e, tr)"
  shows "Main_check_s3 env s = Some (Some e, s\<lparr>trace := tr\<rparr>)"
  using assms by (simp add: Main_check_s3_def)

lemma Main_check_s3_mono:
  assumes "Main_check_s3 env s = Some (r, s')"
  shows "max_s3_time s \<le> max_s3_time s'"
proof (cases "S3Helper_list_files env S3Config_bucket (S3Config_root @ ''/pending/'') (trace s)")
  case None
  with assms show ?thesis by (simp add: Main_check_s3_def)
next
  case (Some a)
  obtain x tr where a: "a = (x, tr)" by (cases a)
  show ?thesis
  proof (cases x)
    case (Inl e)
    with Some a assms Main_check_s3_raised [of env s e tr] show ?thesis by auto
  next
    case (Inr results)
    with Some a assms Main_check_s3_listed [of env s results tr] show ?thesis
      by (auto simp: fold_max_ge)
  qed
qed

lemma call_all_looped:
  assumes "Main_check_s3 env s = Some (r, s1)"
  shows "call_all looped_functions env s = Some (s1\<lparr>status_queue := []\<rparr>)"
  using assms by (simp add: looped_functions_def Main_check_status_def)

lemma call_all_looped_mono:
  assumes "call_all looped_functions env s = Some s'"
  shows "max_s3_time s \<le> max_s3_time s'"
proof (cases "Main_check_s3 env s")
  case None
  with assms show ?thesis by (simp add: looped_functions_def)
next
  case (Some a)
  obtain r s1 where a: "a = (r, s1)" by (cases a)
  with Some assms call_all_looped [of env s r s1] have "s' = s1\<lparr>status_queue := []\<rparr>"
    by simp
  with Main_check_s3_mono [of env s r s1] Some a show ?thesis by simp
qed

lemma Main_run_mono:
  "Main_run n env s = Some s' \<Longrightarrow> max_s3_time s \<le> max_s3_time s'"
proof (induction n arbitrary: s)
  case 0
  then show ?case by simp
next
  case (Suc n)
  show ?case
  proof (cases "stop s")
    case True
    with Suc.prems show ?thesis by simp
  next
    case False
    with Suc.prems obtain s1 where c: "call_all looped_functions env s = Some s1"
      and r: "Main_run n env s1 = Some s'"
      by (auto split: option.splits)
    from call_all_looped_mono [OF c] Suc.IH [OF r] show ?thesis by simp
  qed
qed

lemma produced_pending:
  "produced 0 pending_objects =
     [object_at ''pag_estuary/pending/clientA/test1_20170101.csv'' 120 5,
      object_at ''pag_estuary/pending/clientA/test2_20170101.csv'' 80 7]"
  by (simp add: produced_def pending_objects_def object_at_def)

lemma listing_of_idle:
  "S3Helper_list_files (one_page_env pending_objects) S3Config_bucket
     (S3Config_root @ ''/pending/'') (trace idle_system)
   = Some (Inr pending_objects,
           trace idle_system @ [ListObjects S3Config_bucket (S3Config_root @ ''/pending/'') [] 1000])"
  by (rule list_files_one_page)

text \<open>
  Claim C5. When the listing of a cycle returns, \<open>check_s3\<close> returns and the new
  high-water mark is the greatest \<open>LastModified\<close> among the objects that produced a
  message, or the old mark when there is none. When the listing raises, no object
  produced a message and the mark is the old one. The mark never decreases: not in one
  call of \<open>check_s3\<close>, however it ends, and not over any number of passes of the main
  loop.
\<close>

theorem high_water_mark_after_cycle:
  "(\<forall>results tr.
      S3Helper_list_files env S3Config_bucket (S3Config_root @ ''/pending/'') (trace s)
        = Some (Inr results, tr) \<longrightarrow>
      (\<exists>s'. Main_check_s3 env s = Some (None, s')
        \<and> max_s3_time s' =
            (if produced (max_s3_time s) results = [] then max_s3_time s
             else Max (LastModified ` set (produced (max_s3_time s) results)))))
   \<and> (\<forall>e tr.
      S3Helper_list_files env S3Config_bucket (S3Config_root @ ''/pending/'') (trace s)
        = Some (Inl e, tr) \<longrightarrow>
      (\<exists>s'. Main_check_s3 env s = Some (Some e, s') \<and> max_s3_time s' = max_s3_time s))
   \<and> (\<forall>r s'. Main_check_s3 env s = Some (r, s') \<longrightarrow> max_s3_time s \<le> max_s3_time s')
   \<and> (\<forall>n s'. Main_run n env s = Some s' \<longrightarrow> max_s3_time s \<le> max_s3_time s')"
proof (intro conjI allI impI)
  fix results tr
  assume "S3Helper_list_files env S3Config_bucket (S3Config_root @ ''/pending/'') (trace s)
            = Some (Inr results, tr)"
  from Main_check_s3_listed [OF this] fold_max_produced [of "max_s3_time s" results]
  show "\<exists>s'. Main_check_s3 env s = Some (None, s')
        \<and> max_s3_time s' =
            (if produced (max_s3_time s) results = [] then max_s3_time s
             else Max (LastModified ` set (produced (max_s3_time s) results)))"
    by simp
next
  fix e tr
  assume "S3Helper_list_files env S3Config_bucket (S3Config_root @ ''/pending/'') (trace s)
            = Some (Inl e, tr)"
  from Main_check_s3_raised [OF this]
  show "\<exists>s'. Main_check_s3 env s = Some (Some e, s') \<and> max_s3_time s' = max_s3_time s"
    by simp
next
  fix r s'
  assume "Main_check_s3 env s = Some (r, s')"
  then show "max_s3_time s \<le> max_s3_time s'" by (rule Main_check_s3_mono)
next
  fix n s'
  assume "Main_run n env s = Some s'"
  then show "max_s3_time s \<le> max_s3_time s'" by (rule Main_run_mono)
qed

theorem high_water_mark_after_cycle_witness:
  "max_s3_time idle_system = 0
   \<and> fst (the (Main_check_s3 (one_page_env pending_objects) idle_system)) = None
   \<and> max_s3_time (snd (the (Main_check_s3 (one_page_env pending_objects) idle_system))) = 7
   \<and> max_s3_time idle_system
       \<le> max_s3_time (the (Main_run 2 (one_page_env pending_objects) idle_system))
   \<and> max_s3_time (snd (the (Main_check_s3 failing_env idle_system))) = 0"
proof -
  let ?env = "one_page_env pending_objects"
  note h = high_water_mark_after_cycle [of ?env idle_system]
  have z: "max_s3_time idle_system = 0" by (simp add: idle_system_def)
  from h listing_of_idle obtain s' where
    c: "Main_check_s3 ?env idle_system = Some (None, s')" and
    m: "max_s3_time s' =
          (if produced (max_s3_time idle_system) pending_objects = [] then max_s3_time idle_system
           else Max (LastModified ` set (produced (max_s3_time idle_system) pending_objects)))"
    by blast
  from m have m7: "max_s3_time s' = 7"
    by (simp add: z produced_pending object_at_def)
  from c call_all_looped have c1: "call_all looped_functions ?env idle_system
      = Some (s'\<lparr>status_queue := []\<rparr>)" by blast
  from c have tr: "trace s' = [ListObjects S3Config_bucket (S3Config_root @ ''/pending/'') [] 1000]"
    using Main_check_s3_listed [OF listing_of_idle] by (simp add: idle_system_def)
  obtain s2 where c2: "Main_check_s3 ?env (s'\<lparr>status_queue := []\<rparr>) = Some (None, s2)"
    using Main_check_s3_listed [OF list_files_one_page, of pending_objects "s'\<lparr>status_queue := []\<rparr>"]
    by blast
  have ns: "\<not> stop idle_system" by (simp add: idle_system_def)
  have ns': "\<not> stop s'"
    using c Main_check_s3_listed [OF listing_of_idle] by (simp add: idle_system_def)
  have "Main_run 2 ?env idle_system = Some (s2\<lparr>status_queue := []\<rparr>)"
    using ns ns' c1 call_all_looped [OF c2]
    by (simp add: numeral_2_eq_2)
  moreover from h have "\<forall>n s'. Main_run n ?env idle_system = Some s'
      \<longrightarrow> max_s3_time idle_system \<le> max_s3_time s'"
    by blast
  ultimately have "max_s3_time idle_system
       \<le> max_s3_time (the (Main_run 2 ?env idle_system))"
    by (metis option.sel)
  moreover from high_water_mark_after_cycle [of failing_env idle_system]
    list_files_failing [of S3Config_bucket "S3Config_root @ ''/pending/''" "trace idle_system"]
  obtain sf where "Main_check_s3 failing_env idle_system = Some (Some ClientError, sf)"
    and "max_s3_time sf = max_s3_time idle_system"
    by blast
  ultimately show ?thesis using z c m7 by simp
qed

text \<open>
  Claim C6. When the listing of a cycle returns, the messages that \<open>check_s3\<close> appends
  to the task queue are, in listing order, one import message per listed object with a
  size above zero and a \<open>LastModified\<close> strictly after the mark held when the cycle
  began, carrying that object's key as \<open>file_path\<close> and numbered consecutively; no
  other listed object gets a message.
\<close>

theorem one_descriptor_per_new_object:
  assumes "S3Helper_list_files env S3Config_bucket (S3Config_root @ ''/pending/'') (trace s)
             = Some (Inr results, tr)"
  shows "\<exists>s'. Main_check_s3 env s = Some (None, s')
         \<and> task_queue s' = task_queue s @
             map (\<lambda>(i, r). import_message i r)
               (enumerate (next_id s + 1)
                  (filter (\<lambda>r. 0 < Size r \<and> max_s3_time s < LastModified r) results))"
  using Main_check_s3_listed [OF assms] by (simp add: produced_def)

theorem one_descriptor_per_new_object_witness:
  "task_queue (snd (the (Main_check_s3 (one_page_env pending_objects) idle_system))) =
     [import_message 1 (object_at ''pag_estuary/pending/clientA/test1_20170101.csv'' 120 5),
      import_message 2 (object_at ''pag_estuary/pending/clientA/test2_20170101.csv'' 80 7)]"
proof -
  from one_descriptor_per_new_object [OF listing_of_idle]
  obtain s' where c: "Main_check_s3 (one_page_env pending_objects) idle_system = Some (None, s')"
    and q: "task_queue s' = task_queue idle_system @
             map (\<lambda>(i, r). import_message i r)
               (enumerate (next_id idle_system + 1)
                  (filter (\<lambda>r. 0 < Size r \<and> max_s3_time idle_system < LastModified r)
                     pending_objects))"
    by blast
  have "filter (\<lambda>r. 0 < Size r \<and> max_s3_time idle_system < LastModified r) pending_objects
         = produced 0 pending_objects"
    by (simp add: produced_def idle_system_def)
  with q c show ?thesis
    by (simp add: produced_pending) (simp add: idle_system_def numeral_2_eq_2)
qed

text \<open>
  Claim C7. When the listing raises, \<open>check_s3\<close> raises with nothing assigned; the
  loop of \<open>run\<close> drops the exception and calls the next function, \<open>check_status\<close>.
  After this pass the high-water mark and the task queue are as before and \<open>stop\<close> is
  still unset: the loop has not ended, its state after one pass is that state, and every
  further pass starts from it. The next pass polls again: if its listing raises too, the
  loop is again past it with nothing enqueued, and if its listing returns, the loop
  enqueues the messages for the listed objects that are new against the old mark.
\<close>

theorem listing_failure_is_caught:
  assumes "S3Helper_list_files env S3Config_bucket (S3Config_root @ ''/pending/'') (trace s)
             = Some (Inl e, tr)"
    and "\<not> stop s"
  shows "Main_check_s3 env s = Some (Some e, s\<lparr>trace := tr\<rparr>)
       \<and> call_all looped_functions env s = Some (s\<lparr>trace := tr, status_queue := []\<rparr>)
       \<and> max_s3_time (the (call_all looped_functions env s)) = max_s3_time s
       \<and> task_queue (the (call_all looped_functions env s)) = task_queue s
       \<and> \<not> stop (the (call_all looped_functions env s))
       \<and> Main_run (Suc 0) env s = Some (s\<lparr>trace := tr, status_queue := []\<rparr>)
       \<and> Main_run (Suc n) env s = Main_run n env (s\<lparr>trace := tr, status_queue := []\<rparr>)
       \<and> (\<forall>e' tr'.
             S3Helper_list_files env S3Config_bucket (S3Config_root @ ''/pending/'') tr
               = Some (Inl e', tr') \<longrightarrow>
             Main_run (Suc (Suc 0)) env s = Some (s\<lparr>trace := tr', status_queue := []\<rparr>))
       \<and> (\<forall>results tr'.
             S3Helper_list_files env S3Config_bucket (S3Config_root @ ''/pending/'') tr
               = Some (Inr results, tr') \<longrightarrow>
             (\<exists>s''. Main_run (Suc (Suc 0)) env s = Some s''
                \<and> trace s'' = tr'
                \<and> task_queue s'' = task_queue s @
                     map (\<lambda>(i, r). import_message i r)
                       (enumerate (next_id s + 1) (produced (max_s3_time s) results))))"
proof -
  let ?s' = "s\<lparr>trace := tr, status_queue := []\<rparr>"
  note c = Main_check_s3_raised [OF assms(1)]
  from call_all_looped [OF c]
  have a: "call_all looped_functions env s = Some ?s'"
    by simp
  have r: "Main_run (Suc k) env s = Main_run k env ?s'" for k
    using a assms(2) by simp
  have one: "Main_run (Suc 0) env s = Some ?s'"
    using a assms(2) by simp
  have ns': "\<not> stop ?s'" using assms(2) by simp
  have two: "Main_run (Suc (Suc 0)) env s = call_all looped_functions env ?s'"
  proof -
    have "Main_run (Suc (Suc 0)) env s = Main_run (Suc 0) env ?s'" by (rule r)
    also have "\<dots> = call_all looped_functions env ?s'"
      using ns' by (cases "call_all looped_functions env ?s'") simp_all
    finally show ?thesis .
  qed
  have again: "Main_run (Suc (Suc 0)) env s = Some (s\<lparr>trace := tr', status_queue := []\<rparr>)"
    if "S3Helper_list_files env S3Config_bucket (S3Config_root @ ''/pending/'') tr
          = Some (Inl e', tr')" for e' tr'
  proof -
    from that have "S3Helper_list_files env S3Config_bucket (S3Config_root @ ''/pending/'')
        (trace ?s') = Some (Inl e', tr')" by simp
    from call_all_looped [OF Main_check_s3_raised [OF this]]
    have "call_all looped_functions env ?s' = Some (s\<lparr>trace := tr', status_queue := []\<rparr>)"
      by simp
    then show ?thesis by (simp only: two)
  qed
  have later: "\<exists>s''. Main_run (Suc (Suc 0)) env s = Some s''
                \<and> trace s'' = tr'
                \<and> task_queue s'' = task_queue s @
                     map (\<lambda>(i, r). import_message i r)
                       (enumerate (next_id s + 1) (produced (max_s3_time s) results))"
    if "S3Helper_list_files env S3Config_bucket (S3Config_root @ ''/pending/'') tr
          = Some (Inr results, tr')" for results tr'
  proof -
    from that have "S3Helper_list_files env S3Config_bucket (S3Config_root @ ''/pending/'')
        (trace ?s') = Some (Inr results, tr')" by simp
    from call_all_looped [OF Main_check_s3_listed [OF this]]
    obtain s'' where c2: "call_all looped_functions env ?s' = Some s''"
      and "trace s'' = tr'"
      and "task_queue s'' = task_queue s @
                     map (\<lambda>(i, r). import_message i r)
                       (enumerate (next_id s + 1) (produced (max_s3_time s) results))"
      by simp
    then show ?thesis by (simp only: two) simp
  qed
  have frame: "max_s3_time (the (call_all looped_functions env s)) = max_s3_time s"
    "task_queue (the (call_all looped_functions env s)) = task_queue s"
    "\<not> stop (the (call_all looped_functions env s))"
    using a assms(2) by simp_all
  from c a frame one r [of n] again later show ?thesis
    by blast
qed

theorem listing_failure_is_caught_witness:
  "Main_check_s3 failing_env idle_system =
     Some (Some ClientError,
           idle_system\<lparr>trace := [ListObjects S3Config_bucket (S3Config_root @ ''/pending/'') [] 1000]\<rparr>)
   \<and> max_s3_time (the (call_all looped_functions failing_env idle_system)) = 0
   \<and> task_queue (the (call_all looped_functions failing_env idle_system)) = []
   \<and> Main_run (Suc 0) failing_env idle_system =
       Some (idle_system\<lparr>trace := [ListObjects S3Config_bucket (S3Config_root @ ''/pending/'') [] 1000],
                          status_queue := []\<rparr>)
   \<and> Main_run (Suc (Suc 0)) failing_env idle_system =
       Some (idle_system\<lparr>trace := [ListObjects S3Config_bucket (S3Config_root @ ''/pending/'') [] 1000,
                                    ListObjects S3Config_bucket (S3Config_root @ ''/pending/'') [] 1000],
                          status_queue := []\<rparr>)
   \<and> task_queue (the (Main_run (Suc (Suc 0)) (fail_once_env pending_objects) idle_system)) =
       [import_message 1 (object_at ''pag_estuary/pending/clientA/test1_20170101.csv'' 120 5),
        import_message 2 (object_at ''pag_estuary/pending/clientA/test2_20170101.csv'' 80 7)]"
proof -
  let ?L = "ListObjects S3Config_bucket (S3Config_root @ ''/pending/'') [] 1000"
  have l: "S3Helper_list_files failing_env S3Config_bucket (S3Config_root @ ''/pending/'')
             (trace idle_system) = Some (Inl ClientError, [?L])"
    using list_files_failing [of S3Config_bucket "S3Config_root @ ''/pending/''" "trace idle_system"]
    by (simp add: idle_system_def)
  have l2: "S3Helper_list_files failing_env S3Config_bucket (S3Config_root @ ''/pending/'') [?L]
              = Some (Inl ClientError, [?L, ?L])"
    using list_files_failing [of S3Config_bucket "S3Config_root @ ''/pending/''" "[?L]"]
    by simp
  have ns: "\<not> stop idle_system" by (simp add: idle_system_def)
  have z: "max_s3_time idle_system = 0" "task_queue idle_system = []" "next_id idle_system = 0"
    by (simp_all add: idle_system_def)
  note f = listing_failure_is_caught [OF l ns, of 0]
  from f l2 have two: "Main_run (Suc (Suc 0)) failing_env idle_system =
      Some (idle_system\<lparr>trace := [?L, ?L], status_queue := []\<rparr>)"
    by blast
  have o1: "S3Helper_list_files (fail_once_env pending_objects) S3Config_bucket
              (S3Config_root @ ''/pending/'') (trace idle_system) = Some (Inl ClientError, [?L])"
    using list_files_fail_once_first [of pending_objects S3Config_bucket "S3Config_root @ ''/pending/''"]
    by (simp add: idle_system_def)
  have o2: "S3Helper_list_files (fail_once_env pending_objects) S3Config_bucket
              (S3Config_root @ ''/pending/'') [?L] = Some (Inr pending_objects, [?L, ?L])"
    using list_files_fail_once_later [of "[?L]" pending_objects S3Config_bucket
        "S3Config_root @ ''/pending/''"]
    by simp
  from listing_failure_is_caught [OF o1 ns, of 0] o2
  obtain s'' where "Main_run (Suc (Suc 0)) (fail_once_env pending_objects) idle_system = Some s''"
    and "task_queue s'' = task_queue idle_system @
           map (\<lambda>(i, r). import_message i r)
             (enumerate (next_id idle_system + 1) (produced (max_s3_time idle_system) pending_objects))"
    by blast
  then have three: "task_queue (the (Main_run (Suc (Suc 0)) (fail_once_env pending_objects)
        idle_system)) =
       [import_message 1 (object_at ''pag_estuary/pending/clientA/test1_20170101.csv'' 120 5),
        import_message 2 (object_at ''pag_estuary/pending/clientA/test2_20170101.csv'' 80 7)]"
    by (simp add: z produced_pending numeral_2_eq_2)
  from f z two three show ?thesis by simp
qed

section \<open>Dispatch on an unknown type tag\<close>

lemma to_task_other_global:
  assumes "msg_type m \<in> set other_globals"
  shows "to_task m = Inl TypeError"
  using assms by (auto simp: to_task_def other_globals_def)

lemma to_task_absent:
  assumes "msg_type m \<notin> {''TestTask'', ''KillSelfTask'', ''ImportTask'', ''Task''}"
    and "msg_type m \<notin> set other_globals"
  shows "to_task m = Inl KeyError"
  using assms by (simp add: to_task_def)

lemma Worker_iteration_dispatch_raises:
  assumes "to_task m = Inl e"
  shows "Worker_iteration env w m s = (Some e, s)"
  using assms by (simp add: Worker_iteration_def)

lemma Worker_iteration_base:
  assumes "msg_type m = ''Task''"
  shows "Worker_iteration env w m s =
    (Some NotImplementedError,
     s\<lparr>status_queue := status_queue s @ [\<lparr>status_value = failure, origin = m\<rparr>]\<rparr>)"
  using assms
  by (simp add: Worker_iteration_def to_task_def task_do_def task_cleanup_def new_task_def
      set_status_def put_status_def)

text \<open>
  Claim C1, as stated, fails: for a message of type \<open>FooTask\<close> the worker's loop ends
  with the \<open>KeyError\<close> of the lookup, the status queue stays empty, and the message
  behind it is never claimed.
\<close>

theorem unknown_type_counterexample:
  "Worker_run quiet_env 0
     (idle_system\<lparr>task_queue := [message ''FooTask'' no_args, message ''KillSelfTask'' no_args]\<rparr>)
   = Crashed KeyError (idle_system\<lparr>task_queue := [message ''KillSelfTask'' no_args]\<rparr>)
   \<and> status_queue (idle_system\<lparr>task_queue := [message ''KillSelfTask'' no_args]\<rparr>) = []"
  by (subst Worker_run.simps)
     (simp add: idle_system_def Worker_iteration_def to_task_def message_def other_globals_def)

text \<open>
  Claim C1, amended. A message whose type is none of \<open>TestTask\<close>, \<open>KillSelfTask\<close>,
  \<open>ImportTask\<close> ends the loop of the worker that claims it, and the rest of the queue
  stays unclaimed. For \<open>Task\<close>, the base class, a failure status is published and
  then \<open>cleanup\<close> raises \<open>NotImplementedError\<close>. For every other such type
  \<open>to_task\<close> raises before the \<open>try\<close>, so no status is published and nothing else
  changes: \<open>TypeError\<close> when the type names another global of the module,
  \<open>KeyError\<close> when the module has no such name.
\<close>

theorem unknown_type_ends_worker:
  assumes "msg_type m \<notin> {''TestTask'', ''KillSelfTask'', ''ImportTask''}"
    and "\<not> worker_stop s w" and "task_queue s = m # q"
  shows "Worker_run env w s =
           (if msg_type m = ''Task'' then
              Crashed NotImplementedError
                (s\<lparr>task_queue := q,
                   status_queue := status_queue s @ [\<lparr>status_value = failure, origin = m\<rparr>]\<rparr>)
            else if msg_type m \<in> set other_globals then
              Crashed TypeError (s\<lparr>task_queue := q\<rparr>)
            else Crashed KeyError (s\<lparr>task_queue := q\<rparr>))"
proof (cases "msg_type m = ''Task''")
  case True
  from Worker_run_crash [OF assms(2,3) Worker_iteration_base [OF True]]
  show ?thesis using True by simp
next
  case False
  show ?thesis
  proof (cases "msg_type m \<in> set other_globals")
    case True
    from Worker_run_crash [OF assms(2,3)
        Worker_iteration_dispatch_raises [OF to_task_other_global [OF True]]]
    show ?thesis using True False by simp
  next
    case g: False
    from assms(1) False
    have "msg_type m \<notin> {''TestTask'', ''KillSelfTask'', ''ImportTask'', ''Task''}"
      by simp
    from Worker_run_crash [OF assms(2,3)
        Worker_iteration_dispatch_raises [OF to_task_absent [OF this g]]]
    show ?thesis using g False by simp
  qed
qed

theorem unknown_type_ends_worker_witness:
  "Worker_run quiet_env 0
     (idle_system\<lparr>task_queue := [message ''os'' no_args, message ''TestTask'' no_args]\<rparr>)
     = Crashed TypeError (idle_system\<lparr>task_queue := [message ''TestTask'' no_args]\<rparr>)
   \<and> Worker_run quiet_env 0
     (idle_system\<lparr>task_queue := [message ''BarTask'' no_args, message ''TestTask'' no_args]\<rparr>)
     = Crashed KeyError (idle_system\<lparr>task_queue := [message ''TestTask'' no_args]\<rparr>)
   \<and> Worker_run quiet_env 0 (idle_system\<lparr>task_queue := [message ''Task'' no_args]\<rparr>)
     = Crashed NotImplementedError
         (idle_system\<lparr>status_queue :=
            [\<lparr>status_value = failure, origin = message ''Task'' no_args\<rparr>]\<rparr>)"
proof -
  let ?q = "[message ''TestTask'' no_args]"
  let ?m = "message ''os'' no_args"
  let ?s = "idle_system\<lparr>task_queue := ?m # ?q\<rparr>"
  have a: "msg_type ?m \<notin> {''TestTask'', ''KillSelfTask'', ''ImportTask''}"
    by (simp add: message_def)
  have b: "\<not> worker_stop ?s 0" by (simp add: idle_system_def)
  have c: "task_queue ?s = ?m # ?q" by simp
  have d: "msg_type ?m \<noteq> ''Task''" "msg_type ?m \<in> set other_globals"
    by (simp_all add: message_def other_globals_def)
  from unknown_type_ends_worker [OF a b c, of quiet_env] d
  have 1: "Worker_run quiet_env 0 ?s = Crashed TypeError (idle_system\<lparr>task_queue := ?q\<rparr>)"
    by simp
  let ?k = "message ''BarTask'' no_args"
  let ?t = "idle_system\<lparr>task_queue := ?k # ?q\<rparr>"
  have ak: "msg_type ?k \<notin> {''TestTask'', ''KillSelfTask'', ''ImportTask''}"
    by (simp add: message_def)
  have bk: "\<not> worker_stop ?t 0" by (simp add: idle_system_def)
  have ck: "task_queue ?t = ?k # ?q" by simp
  have dk: "msg_type ?k \<noteq> ''Task''" "msg_type ?k \<notin> set other_globals"
    by (simp_all add: message_def other_globals_def)
  from unknown_type_ends_worker [OF ak bk ck, of quiet_env] dk
  have 2: "Worker_run quiet_env 0 ?t = Crashed KeyError (idle_system\<lparr>task_queue := ?q\<rparr>)"
    by simp
  let ?b = "message ''Task'' no_args"
  let ?u = "idle_system\<lparr>task_queue := [?b]\<rparr>"
  have a': "msg_type ?b \<notin> {''TestTask'', ''KillSelfTask'', ''ImportTask''}"
    and d': "msg_type ?b = ''Task''"
    by (simp_all add: message_def)
  have b': "\<not> worker_stop ?u 0" by (simp add: idle_system_def)
  have c': "task_queue ?u = ?b # []" by simp
  from unknown_type_ends_worker [OF a' b' c', of quiet_env] d'
  have "Worker_run quiet_env 0 ?u =
      Crashed NotImplementedError
        (?u\<lparr>task_queue := [],
            status_queue := status_queue ?u @ [\<lparr>status_value = failure, origin = ?b\<rparr>]\<rparr>)"
    by simp
  then have 3: "Worker_run quiet_env 0 ?u =
      Crashed NotImplementedError
        (idle_system\<lparr>status_queue := [\<lparr>status_value = failure, origin = ?b\<rparr>]\<rparr>)"
    by (simp add: idle_system_def)
  from 1 2 3 show ?thesis by simp
qed

section \<open>An import whose key does not parse\<close>

lemma parse_failure_no_paths:
  assumes "ImportTask_parse (new_import_task p) = (Some e, t)"
  shows "accepted_path t = None \<and> rejected_path t = None"
  using assms
  by (auto simp: ImportTask_parse_def new_import_task_def Let_def split: pyval.splits if_splits)

lemma ImportTask_do_parse_failure:
  assumes "ImportTask_parse t0 = (Some e, t)"
  shows "ImportTask_do env t0 tr = (Some e, t, tr)"
  using assms by (simp add: ImportTask_do_def)

lemma cleanup_without_paths:
  assumes "rejected_path t = None" and "st \<noteq> success"
  shows "ImportTask_cleanup env st t tr = (Some AttributeError, tr)"
  using assms by (simp add: ImportTask_cleanup_def with_attr_def and_then_def)

text \<open>
  When \<open>_parse\<close> raises, the failure status is published, and \<open>cleanup\<close> then raises
  \<open>AttributeError\<close> on \<open>self.rejected_path\<close> before any request is made.
\<close>

lemma parse_failure_iteration:
  assumes "msg_type m = ''ImportTask''" and "args m ''file_path'' = Some p"
    and "ImportTask_parse (new_import_task p) = (Some e, t)"
  shows "Worker_iteration env w m s =
     (Some AttributeError,
      s\<lparr>status_queue := status_queue s @ [\<lparr>status_value = failure, origin = m\<rparr>]\<rparr>)"
proof -
  from parse_failure_no_paths [OF assms(3)] have r: "rejected_path t = None" by simp
  have tt: "to_task m = Inr (new_task m (ImportTask (new_import_task p)))"
    using assms(1,2) by (simp add: to_task_def)
  have d: "task_do env w (new_task m (ImportTask (new_import_task p))) s =
      (Some e, (new_task m (ImportTask (new_import_task p)))\<lparr>variant := ImportTask t\<rparr>, s)"
    by (simp add: task_do_def new_task_def ImportTask_do_parse_failure [OF assms(3)])
  have "Worker_iteration env w m s =
      task_cleanup env
        (set_status failure
           ((new_task m (ImportTask (new_import_task p)))\<lparr>variant := ImportTask t\<rparr>))
        (put_status
           (set_status failure
              ((new_task m (ImportTask (new_import_task p)))\<lparr>variant := ImportTask t\<rparr>)) s)"
    by (simp add: Worker_iteration_def tt d Let_def)
  then show ?thesis
    by (simp add: set_status_def put_status_def task_cleanup_def new_task_def
        cleanup_without_paths [OF r])
qed

text \<open>
  After a \<open>_parse\<close> that returned, the attributes are assigned, and \<open>cleanup\<close> does
  what its comments say: its first request is the copy of the original object, to the
  accepted location if the status is success and to the rejected location otherwise.
\<close>

lemma parse_success_paths:
  assumes "ImportTask_parse (new_import_task (PStr p)) = (None, t)"
  shows "file_path t = PStr p
       \<and> upload_path t \<noteq> None
       \<and> accepted_path t =
           Some (S3Config_root @ ''/accepted/'' @ the (client t) @ ''/'' @ the (file_name t))
       \<and> rejected_path t =
           Some (S3Config_root @ ''/rejected/'' @ the (client t) @ ''/'' @ the (file_name t))"
  using assms
  by (auto simp: ImportTask_parse_def new_import_task_def Let_def split: if_splits)

lemma move_file_trace:
  "\<exists>rest. snd (S3Helper_move_file env b src dst tr)
            = tr @ CopyObject b (b @ ''/'' @ src) dst # rest"
proof (cases "fst (S3Helper_copy_file env b src dst tr)")
  case None
  then have "S3Helper_copy_file env b src dst tr
               = (None, tr @ [CopyObject b (b @ ''/'' @ src) dst])"
    using exec_trace [of env "CopyObject b (b @ ''/'' @ src) dst" tr]
    by (simp add: S3Helper_copy_file_def prod_eq_iff)
  then show ?thesis
    by (simp add: S3Helper_move_file_def S3Helper_delete_file_def exec_trace)
next
  case (Some e)
  then have "S3Helper_copy_file env b src dst tr
               = (Some e, tr @ [CopyObject b (b @ ''/'' @ src) dst])"
    using exec_trace [of env "CopyObject b (b @ ''/'' @ src) dst" tr]
    by (simp add: S3Helper_copy_file_def prod_eq_iff)
  then show ?thesis
    by (simp add: S3Helper_move_file_def)
qed

lemma with_attr_exec_extends: "\<exists>ys. snd (with_attr a (\<lambda>v. exec env (g v)) tr) = tr @ ys"
  by (cases a) (simp_all add: with_attr_def exec_trace)

lemma remove_local_extends: "\<exists>ys. remove_local env a b tr = tr @ ys"
proof -
  obtain r tr1 where 1: "with_attr a (\<lambda>p. exec env (Remove p)) tr = (r, tr1)"
    by (cases "with_attr a (\<lambda>p. exec env (Remove p)) tr")
  with with_attr_exec_extends [of a env Remove tr] obtain ys where ys: "tr1 = tr @ ys" by auto
  show ?thesis
  proof (cases r)
    case None
    from with_attr_exec_extends [of b env RmDir tr1] obtain zs
      where "snd (with_attr b (\<lambda>d. exec env (RmDir d)) tr1) = tr1 @ zs" by blast
    with None 1 ys show ?thesis by (simp add: remove_local_def and_then_def)
  next
    case (Some e)
    with 1 ys show ?thesis by (simp add: remove_local_def and_then_def)
  qed
qed

lemma cleanup_tail_extends:
  "\<exists>ys. snd (with_attr u (\<lambda>k. S3Helper_delete_file env b k)
            (remove_local env p2 f2 (remove_local env p1 f1 tr))) = tr @ ys"
proof -
  obtain xs where 1: "remove_local env p1 f1 tr = tr @ xs"
    using remove_local_extends by blast
  obtain ys where 2: "remove_local env p2 f2 (tr @ xs) = (tr @ xs) @ ys"
    using remove_local_extends by blast
  have "\<exists>zs. snd (with_attr u (\<lambda>k. S3Helper_delete_file env b k) tr') = tr' @ zs" for tr'
    by (cases u) (simp_all add: with_attr_def S3Helper_delete_file_def exec_trace)
  then obtain zs where "snd (with_attr u (\<lambda>k. S3Helper_delete_file env b k) ((tr @ xs) @ ys))
      = ((tr @ xs) @ ys) @ zs" by blast
  with 1 2 show ?thesis by simp
qed

lemma cleanup_issues_move:
  assumes "ImportTask_parse (new_import_task (PStr p)) = (None, t)"
  shows "\<exists>rest. snd (ImportTask_cleanup env st t tr) =
           tr @ CopyObject S3Config_bucket (S3Config_bucket @ ''/'' @ p)
                  (S3Config_root @ (if st = success then ''/accepted/'' else ''/rejected/'')
                     @ the (client t) @ ''/'' @ the (file_name t)) # rest"
proof -
  let ?dst = "S3Config_root @ (if st = success then ''/accepted/'' else ''/rejected/'')
                     @ the (client t) @ ''/'' @ the (file_name t)"
  note pp = parse_success_paths [OF assms]
  obtain r tr1 where m: "S3Helper_move_file env S3Config_bucket p ?dst tr = (r, tr1)"
    by (cases "S3Helper_move_file env S3Config_bucket p ?dst tr")
  with move_file_trace [of env S3Config_bucket p ?dst tr] obtain rest
    where tr1: "tr1 = tr @ CopyObject S3Config_bucket (S3Config_bucket @ ''/'' @ p) ?dst # rest"
    by auto
  have c: "ImportTask_cleanup env st t tr =
      and_then (r, tr1)
       (\<lambda>tr1.
          let tr2 = remove_local env (download_path t) (download_folder t) tr1;
              tr3 = remove_local env (processed_path t) (processed_folder t) tr2
          in with_attr (upload_path t) (\<lambda>u. S3Helper_delete_file env S3Config_bucket u) tr3)"
    using pp m
    by (cases "st = success") (simp_all add: ImportTask_cleanup_def with_attr_def with_key_def)
  show ?thesis
  proof (cases r)
    case (Some e)
    with c tr1 show ?thesis by (simp add: and_then_def)
  next
    case None
    from cleanup_tail_extends [of "upload_path t" env S3Config_bucket "processed_path t"
        "processed_folder t" "download_path t" "download_folder t" tr1]
    obtain ys where
      "snd (with_attr (upload_path t) (\<lambda>k. S3Helper_delete_file env S3Config_bucket k)
            (remove_local env (processed_path t) (processed_folder t)
               (remove_local env (download_path t) (download_folder t) tr1))) = tr1 @ ys"
      by blast
    with None c tr1 show ?thesis by (simp add: and_then_def Let_def)
  qed
qed

text \<open>
  After a \<open>_parse\<close> that returned, \<open>cleanup\<close> returns whenever the gateway's copy and
  delete requests do, whatever the local removals raise.
\<close>

lemma exec_returns:
  assumes "\<forall>e. env tr c \<noteq> Raises e"
  shows "exec env c tr = (None, tr @ [c])"
  using assms by (cases "env tr c") (simp_all add: exec_def perform_def)

lemma cleanup_completes_after_parse:
  assumes "ImportTask_parse (new_import_task (PStr p)) = (None, t)"
    and "\<forall>h b k d e. env h (CopyObject b k d) \<noteq> Raises e"
    and "\<forall>h b k e. env h (DeleteObject b k) \<noteq> Raises e"
  shows "fst (ImportTask_cleanup env st t tr) = None"
proof -
  from parse_success_paths [OF assms(1)]
  obtain u a r where u: "upload_path t = Some u" and a: "accepted_path t = Some a"
    and r: "rejected_path t = Some r" and f: "file_path t = PStr p"
    by auto
  have cp: "exec env (CopyObject b k d) h = (None, h @ [CopyObject b k d])" for b k d h
    using assms(2) by (simp add: exec_returns)
  have dl: "exec env (DeleteObject b k) h = (None, h @ [DeleteObject b k])" for b k h
    using assms(3) by (simp add: exec_returns)
  have mv: "fst (S3Helper_move_file env b k d h) = None" for b k d h
    by (simp add: S3Helper_move_file_def S3Helper_copy_file_def S3Helper_delete_file_def cp dl)
  have "fst (and_then x (\<lambda>h. with_attr (upload_path t)
            (\<lambda>k. S3Helper_delete_file env S3Config_bucket k) (g h))) = None"
    if "fst x = None" for x g
    using that by (cases x) (simp add: and_then_def with_attr_def u S3Helper_delete_file_def dl)
  from this [OF mv] show ?thesis
    by (cases "st = success")
       (simp_all add: ImportTask_cleanup_def with_attr_def with_key_def a r f Let_def)
qed

lemma parse_bad_type:
  "fst (ImportTask_parse (new_import_task (PStr ''pag_estuary/pending/clientA/bad_20170101.csv'')))
     = Some AssertionError"
  by code_simp

lemma parse_no_underscore:
  "fst (ImportTask_parse (new_import_task (PStr ''pag_estuary/pending/clientA/readme.txt'')))
     = Some AssertionError"
  by code_simp

lemma parse_other_type:
  "fst (ImportTask_parse (new_import_task (PStr ''pag_estuary/pending/clientA/claims_20170101.csv'')))
     = Some AssertionError"
  by code_simp

text \<open>
  Claim C2 at the key \<open>pag_estuary/pending/clientA/bad_20170101.csv\<close>, whose file type
  \<open>bad\<close> is not in the list: in every world, the pass of the worker's loop publishes the
  failure status and ends with \<open>AttributeError\<close>; the history of requests is unchanged,
  so no copy to the rejected location was sent.
\<close>

theorem rejected_move_not_issued:
  "Worker_iteration env w
     (import_message i (object_at ''pag_estuary/pending/clientA/bad_20170101.csv'' n t)) s =
     (Some AttributeError,
      s\<lparr>status_queue := status_queue s @
           [\<lparr>status_value = failure,
             origin = import_message i
               (object_at ''pag_estuary/pending/clientA/bad_20170101.csv'' n t)\<rparr>]\<rparr>)
   \<and> trace (snd (Worker_iteration env w
        (import_message i (object_at ''pag_estuary/pending/clientA/bad_20170101.csv'' n t)) s))
       = trace s"
proof -
  let ?m = "import_message i (object_at ''pag_estuary/pending/clientA/bad_20170101.csv'' n t)"
  obtain t' where p: "ImportTask_parse
      (new_import_task (PStr ''pag_estuary/pending/clientA/bad_20170101.csv''))
        = (Some AssertionError, t')"
    using parse_bad_type by (metis prod.collapse)
  have a: "msg_type ?m = ''ImportTask''" by (simp add: import_message_def)
  have b: "args ?m ''file_path'' = Some (PStr ''pag_estuary/pending/clientA/bad_20170101.csv'')"
    by (simp add: import_message_def object_at_def)
  from parse_failure_iteration [OF a b p] show ?thesis by simp
qed

text \<open>
  Claim C3 at the key \<open>pag_estuary/pending/clientA/readme.txt\<close>: the worker that claims
  its import message publishes the failure status and its loop ends with the
  \<open>AttributeError\<close> of \<open>cleanup\<close>. The history of requests is still empty, so neither
  the move to the accepted nor the move to the rejected location was sent.
\<close>

theorem neither_move_after_parse_failure:
  "Worker_run env 0
     (idle_system\<lparr>task_queue :=
        [import_message 1 (object_at ''pag_estuary/pending/clientA/readme.txt'' 10 1)]\<rparr>) =
     Crashed AttributeError
       (idle_system\<lparr>status_queue :=
          [\<lparr>status_value = failure,
            origin = import_message 1
              (object_at ''pag_estuary/pending/clientA/readme.txt'' 10 1)\<rparr>]\<rparr>)
   \<and> trace (idle_system\<lparr>status_queue :=
          [\<lparr>status_value = failure,
            origin = import_message 1
              (object_at ''pag_estuary/pending/clientA/readme.txt'' 10 1)\<rparr>]\<rparr>) = []"
proof -
  let ?m = "import_message 1 (object_at ''pag_estuary/pending/clientA/readme.txt'' 10 1)"
  let ?s = "idle_system\<lparr>task_queue := [?m]\<rparr>"
  obtain t' where p: "ImportTask_parse
      (new_import_task (PStr ''pag_estuary/pending/clientA/readme.txt''))
        = (Some AssertionError, t')"
    using parse_no_underscore by (metis prod.collapse)
  have a: "msg_type ?m = ''ImportTask''" by (simp add: import_message_def)
  have b: "args ?m ''file_path'' = Some (PStr ''pag_estuary/pending/clientA/readme.txt'')"
    by (simp add: import_message_def object_at_def)
  have ns: "\<not> worker_stop ?s 0" by (simp add: idle_system_def)
  have q: "task_queue ?s = ?m # []" by simp
  from Worker_run_crash [OF ns q parse_failure_iteration [OF a b p]]
  have "Worker_run env 0 ?s =
      Crashed AttributeError
        (?s\<lparr>task_queue := [],
            status_queue := status_queue (?s\<lparr>task_queue := []\<rparr>)
               @ [\<lparr>status_value = failure, origin = ?m\<rparr>]\<rparr>)" .
  then show ?thesis by (simp add: idle_system_def)
qed

text \<open>
  Claim C4 at the key \<open>pag_estuary/pending/clientA/claims_20170101.csv\<close>: after
  \<open>_parse\<close> has raised, \<open>cleanup\<close> raises \<open>AttributeError\<close> in every world and from
  every history, before its first request.
\<close>

theorem cleanup_raises_after_parse_failure:
  "ImportTask_cleanup env failure
     (snd (ImportTask_parse
        (new_import_task (PStr ''pag_estuary/pending/clientA/claims_20170101.csv''))))
     tr = (Some AttributeError, tr)"
proof -
  obtain t' where p: "ImportTask_parse
      (new_import_task (PStr ''pag_estuary/pending/clientA/claims_20170101.csv''))
        = (Some AssertionError, t')"
    using parse_other_type by (metis prod.collapse)
  from parse_failure_no_paths [OF p] have "rejected_path t' = None" by simp
  from cleanup_without_paths [OF this, of failure env tr] p show ?thesis by simp
qed

end
